theory Spec2Isabelle
  imports Main
begin

section \<open>Plate text\<close>

text \<open>
  Plate texts are JavaScript strings. They are modelled as \<open>string\<close> over the ASCII
  repertoire: \<open>trim\<close> strips the ASCII members of the ECMAScript WhiteSpace and
  LineTerminator classes (TAB, LF, VT, FF, CR, SP) from both ends, and \<open>toUpperCase\<close>
  maps \<open>a\<close>..\<open>z\<close> to \<open>A\<close>..\<open>Z\<close> and leaves every other character as it is. Beyond
  ASCII both built-ins consult the Unicode tables of the JavaScript runtime, which are
  not modelled.
\<close>

definition isWhiteSpace :: "char \<Rightarrow> bool" where
  "isWhiteSpace c = (of_char c \<in> {9, 10, 11, 12, 13, 32 :: nat})"

definition toUpperChar :: "char \<Rightarrow> char" where
  "toUpperChar c =
     (if 97 \<le> (of_char c :: nat) \<and> (of_char c :: nat) \<le> 122
      then char_of (of_char c - 32 :: nat) else c)"

definition toUpperCase :: "string \<Rightarrow> string" where
  "toUpperCase s = map toUpperChar s"

definition trim :: "string \<Rightarrow> string" where
  "trim s = rev (dropWhile isWhiteSpace (rev (dropWhile isWhiteSpace s)))"

text \<open>
  The expression \<^verbatim>\<open>plate.trim().toUpperCase()\<close> of \<^verbatim>\<open>addVote\<close> and of the two vote
  handlers; the specification calls it normalization.
\<close>

definition normalize_plate :: "string \<Rightarrow> string" where
  "normalize_plate plate = toUpperCase (trim plate)"






definition case_table :: "('c \<Rightarrow> bool) \<Rightarrow> ('c \<Rightarrow> 'c list) \<Rightarrow> bool" where
  "case_table ws up \<longleftrightarrow>
     (\<forall>c. \<not> ws c \<longrightarrow> up c \<noteq> [] \<and> (\<forall>d \<in> set (up c). \<not> ws d))
     \<and> (\<forall>c. \<forall>d \<in> set (up c). up d = [d])"

section \<open>The relational store\<close>

text \<open>
  The two tables, as the \<^verbatim>\<open>create table\<close> statements of \<^verbatim>\<open>initDb\<close> declare them.
  The columns \<^verbatim>\<open>id\<close>, \<^verbatim>\<open>plate_text\<close> and \<^verbatim>\<open>value\<close> of \<^verbatim>\<open>votes\<close> carry the prefix
  \<open>vote_\<close>. A table is the list of its rows in insertion order. Scores and deltas
  are mathematical integers; see \<open>update_plate\<close> for the range in which that is the
  engine's arithmetic.
\<close>

record plate_row =
  plate_text :: string
  score :: int
  updated_at :: string

record vote_row =
  vote_id :: string
  vote_plate_text :: string
  vote_value :: int
  created_at :: string

text \<open>A database file holds each table or not (\<open>None\<close>: the table does not exist).\<close>

record database =
  plates :: "plate_row list option"
  votes :: "vote_row list option"

text \<open>
  What a \<^verbatim>\<open>SQL.Database\<close> handle is opened over: a file the engine can read, or bytes
  that are not a database file. The engine opens lazily, so the constructor accepts
  both and every later statement on the second kind raises.
\<close>

datatype sqlite = NotADatabase "nat list" | Database database

text \<open>
  \<open>PlateRequired\<close> is \<^verbatim>\<open>Error("Plate required")\<close> (the specification's InvalidInput);
  \<open>CheckFailed\<close> and \<open>UniqueFailed\<close> are the engine's constraint errors (the
  specification's ConstraintViolation); \<open>NotADb\<close> is the engine's answer on an
  unreadable file (CorruptImage).
\<close>

datatype error =
    PlateRequired
  | CheckFailed
  | UniqueFailed
  | NoSuchTable string
  | TableExists string
  | NotADb

definition plates_of :: "sqlite \<Rightarrow> error + plate_row list" where
  "plates_of f =
     (case f of
        NotADatabase _ \<Rightarrow> Inl NotADb
      | Database d \<Rightarrow>
          (case plates d of None \<Rightarrow> Inl (NoSuchTable ''plates'') | Some ps \<Rightarrow> Inr ps))"

definition votes_of :: "sqlite \<Rightarrow> error + vote_row list" where
  "votes_of f =
     (case f of
        NotADatabase _ \<Rightarrow> Inl NotADb
      | Database d \<Rightarrow>
          (case votes d of None \<Rightarrow> Inl (NoSuchTable ''votes'') | Some vs \<Rightarrow> Inr vs))"

definition set_plates :: "plate_row list \<Rightarrow> sqlite \<Rightarrow> sqlite" where
  "set_plates ps f =
     (case f of NotADatabase b \<Rightarrow> NotADatabase b | Database d \<Rightarrow> Database (d\<lparr>plates := Some ps\<rparr>))"

definition set_votes :: "vote_row list \<Rightarrow> sqlite \<Rightarrow> sqlite" where
  "set_votes vs f =
     (case f of NotADatabase b \<Rightarrow> NotADatabase b | Database d \<Rightarrow> Database (d\<lparr>votes := Some vs\<rparr>))"

text \<open>\<^verbatim>\<open>select score from plates where plate_text = $p\<close>, stepped once: is there a row?\<close>

definition select_plate :: "string \<Rightarrow> sqlite \<Rightarrow> error + bool" where
  "select_plate p f =
     (case plates_of f of
        Inl e \<Rightarrow> Inl e
      | Inr ps \<Rightarrow> Inr (list_ex (\<lambda>r. plate_text r = p) ps))"

text \<open>\<^verbatim>\<open>insert into plates (plate_text, score, updated_at) values ($p, 0, $t)\<close>\<close>

definition insert_plate :: "string \<Rightarrow> string \<Rightarrow> sqlite \<Rightarrow> error + sqlite" where
  "insert_plate p t f =
     (case plates_of f of
        Inl e \<Rightarrow> Inl e
      | Inr ps \<Rightarrow>
          if list_ex (\<lambda>r. plate_text r = p) ps then Inl UniqueFailed
          else Inr (set_plates (ps @ [\<lparr>plate_text = p, score = 0, updated_at = t\<rparr>]) f))"

text \<open>
  \<^verbatim>\<open>update plates set score = score + $v, updated_at = $t where plate_text = $p\<close>.
  The binding layer passes a delta as an integer when it is a 32-bit integer and as a
  double otherwise, and the engine adds two integers exactly as long as the sum stays
  in the 64-bit range; beyond either bound it computes in floating point. The sum
  below is the engine's sum inside these bounds (to leave them by unit votes takes
  2^63 votes for one plate) and is not followed outside them: statements about a score
  after a delta that is not a unit carry the bounds \<open>int32\<close> and \<open>int64\<close>.
\<close>

definition int32 :: "int \<Rightarrow> bool" where
  "int32 n \<longleftrightarrow> - 2147483648 \<le> n \<and> n \<le> 2147483647"

definition int64 :: "int \<Rightarrow> bool" where
  "int64 n \<longleftrightarrow> - 9223372036854775808 \<le> n \<and> n \<le> 9223372036854775807"

definition update_plate :: "int \<Rightarrow> string \<Rightarrow> string \<Rightarrow> sqlite \<Rightarrow> error + sqlite" where
  "update_plate v t p f =
     (case plates_of f of
        Inl e \<Rightarrow> Inl e
      | Inr ps \<Rightarrow>
          Inr (set_plates
                 (map (\<lambda>r. if plate_text r = p then r\<lparr>score := score r + v, updated_at := t\<rparr> else r) ps)
                 f))"

text \<open>
  \<^verbatim>\<open>insert into votes (id, plate_text, value, created_at) values ($id, $p, $v, $t)\<close>,
  under \<^verbatim>\<open>check (value in (-1,1))\<close> and the primary key on \<^verbatim>\<open>id\<close>.
\<close>

definition insert_vote :: "string \<Rightarrow> string \<Rightarrow> int \<Rightarrow> string \<Rightarrow> sqlite \<Rightarrow> error + sqlite" where
  "insert_vote i p v t f =
     (case votes_of f of
        Inl e \<Rightarrow> Inl e
      | Inr vs \<Rightarrow>
          if v \<noteq> - 1 \<and> v \<noteq> 1 then Inl CheckFailed
          else if list_ex (\<lambda>r. vote_id r = i) vs then Inl UniqueFailed
          else Inr (set_votes
                      (vs @ [\<lparr>vote_id = i, vote_plate_text = p, vote_value = v, created_at = t\<rparr>])
                      f))"

section \<open>The data layer\<close>

text \<open>
  What one call of \<^verbatim>\<open>addVote\<close> draws from its environment: the three readings of
  \<^verbatim>\<open>nowIso()\<close> (in \<^verbatim>\<open>ensurePlateRow\<close>, for the update, for the vote row) and the result
  of \<^verbatim>\<open>uuid()\<close>.
\<close>

record env =
  now_ensure :: string
  now_update :: string
  now_insert :: string
  uuid :: string

definition ensurePlateRow :: "string \<Rightarrow> string \<Rightarrow> sqlite \<Rightarrow> error + sqlite" where
  "ensurePlateRow t txPlate f =
     (case select_plate txPlate f of
        Inl e \<Rightarrow> Inl e
      | Inr exists \<Rightarrow> if \<not> exists then insert_plate txPlate t f else Inr f)"

text \<open>
  \<^verbatim>\<open>addVote\<close> runs its statements one after the other with no transaction around them:
  when a statement raises, the statements before it stay applied. The result is the
  error raised, if any, and the store the call leaves behind.
\<close>

definition addVote :: "env \<Rightarrow> string \<Rightarrow> int \<Rightarrow> sqlite \<Rightarrow> error option \<times> sqlite" where
  "addVote e plate val f =
     (let txPlate = toUpperCase (trim plate) in
      if txPlate = [] then (Some PlateRequired, f)
      else
        (case ensurePlateRow (now_ensure e) txPlate f of
           Inl err \<Rightarrow> (Some err, f)
         | Inr f1 \<Rightarrow>
             (case update_plate val (now_update e) txPlate f1 of
                Inl err \<Rightarrow> (Some err, f1)
              | Inr f2 \<Rightarrow>
                  (case insert_vote (uuid e) txPlate val (now_insert e) f2 of
                     Inl err \<Rightarrow> (Some err, f2)
                   | Inr f3 \<Rightarrow> (None, f3)))))"

text \<open>A sequence of calls, each with its own environment, applied one after the other.\<close>

type_synonym call = "env \<times> string \<times> int"

definition call_id :: "call \<Rightarrow> string" where
  "call_id c = uuid (fst c)"

definition call_plate :: "call \<Rightarrow> string" where
  "call_plate c = fst (snd c)"

definition call_value :: "call \<Rightarrow> int" where
  "call_value c = snd (snd c)"

fun addVotes :: "call list \<Rightarrow> sqlite \<Rightarrow> sqlite" where
  "addVotes [] f = f"
| "addVotes ((e, plate, val) # calls) f = addVotes calls (snd (addVote e plate val f))"

text \<open>
  The two queries of \<^verbatim>\<open>queryLeaderboard\<close>:
  \<^verbatim>\<open>select plate_text, score from plates where score > 0 order by score desc limit 50\<close>
  and its mirror image. The engine leaves the order of equal scores open; the model
  keeps them in insertion order (a stable sort).
\<close>

record leaderboard =
  best :: "(string \<times> int) list"
  worst :: "(string \<times> int) list"

definition select_best :: "sqlite \<Rightarrow> error + (string \<times> int) list" where
  "select_best f =
     (case plates_of f of
        Inl e \<Rightarrow> Inl e
      | Inr ps \<Rightarrow>
          Inr (map (\<lambda>r. (plate_text r, score r))
                 (take 50 (sort_key (\<lambda>r. - score r) (filter (\<lambda>r. score r > 0) ps)))))"

definition select_worst :: "sqlite \<Rightarrow> error + (string \<times> int) list" where
  "select_worst f =
     (case plates_of f of
        Inl e \<Rightarrow> Inl e
      | Inr ps \<Rightarrow>
          Inr (map (\<lambda>r. (plate_text r, score r))
                 (take 50 (sort_key (\<lambda>r. score r) (filter (\<lambda>r. score r < 0) ps)))))"

definition queryLeaderboard :: "sqlite \<Rightarrow> error + leaderboard" where
  "queryLeaderboard f =
     (case select_best f of
        Inl e \<Rightarrow> Inl e
      | Inr b \<Rightarrow>
          (case select_worst f of
             Inl e \<Rightarrow> Inl e
           | Inr w \<Rightarrow> Inr \<lparr>best = b, worst = w\<rparr>))"

section \<open>Schema statements\<close>

text \<open>
  \<^verbatim>\<open>db.run\<close> executes the statements of its script in order and raises at the first
  one that fails; the statements before it stay applied.
\<close>

fun run :: "(sqlite \<Rightarrow> error + sqlite) list \<Rightarrow> sqlite \<Rightarrow> error option \<times> sqlite" where
  "run [] f = (None, f)"
| "run (stmt # stmts) f = (case stmt f of Inl e \<Rightarrow> (Some e, f) | Inr f' \<Rightarrow> run stmts f')"

definition create_plates_if_not_exists :: "sqlite \<Rightarrow> error + sqlite" where
  "create_plates_if_not_exists f =
     (case f of
        NotADatabase _ \<Rightarrow> Inl NotADb
      | Database d \<Rightarrow>
          (case plates d of None \<Rightarrow> Inr (Database (d\<lparr>plates := Some []\<rparr>)) | Some _ \<Rightarrow> Inr f))"

definition create_votes_if_not_exists :: "sqlite \<Rightarrow> error + sqlite" where
  "create_votes_if_not_exists f =
     (case f of
        NotADatabase _ \<Rightarrow> Inl NotADb
      | Database d \<Rightarrow>
          (case votes d of None \<Rightarrow> Inr (Database (d\<lparr>votes := Some []\<rparr>)) | Some _ \<Rightarrow> Inr f))"

definition create_plates :: "sqlite \<Rightarrow> error + sqlite" where
  "create_plates f =
     (case f of
        NotADatabase _ \<Rightarrow> Inl NotADb
      | Database d \<Rightarrow>
          (case plates d of
             None \<Rightarrow> Inr (Database (d\<lparr>plates := Some []\<rparr>))
           | Some _ \<Rightarrow> Inl (TableExists ''plates'')))"

definition create_votes :: "sqlite \<Rightarrow> error + sqlite" where
  "create_votes f =
     (case f of
        NotADatabase _ \<Rightarrow> Inl NotADb
      | Database d \<Rightarrow>
          (case votes d of
             None \<Rightarrow> Inr (Database (d\<lparr>votes := Some []\<rparr>))
           | Some _ \<Rightarrow> Inl (TableExists ''votes'')))"

text \<open>
  \<^verbatim>\<open>create index if not exists idx_votes_plate on votes(plate_text)\<close> needs the table
  and changes no row; the index itself is not part of the model.
\<close>

definition create_index_if_not_exists :: "sqlite \<Rightarrow> error + sqlite" where
  "create_index_if_not_exists f = (case votes_of f of Inl e \<Rightarrow> Inl e | Inr _ \<Rightarrow> Inr f)"

definition drop_votes_if_exists :: "sqlite \<Rightarrow> error + sqlite" where
  "drop_votes_if_exists f =
     (case f of
        NotADatabase _ \<Rightarrow> Inl NotADb
      | Database d \<Rightarrow> Inr (Database (d\<lparr>votes := None\<rparr>)))"

definition drop_plates_if_exists :: "sqlite \<Rightarrow> error + sqlite" where
  "drop_plates_if_exists f =
     (case f of
        NotADatabase _ \<Rightarrow> Inl NotADb
      | Database d \<Rightarrow> Inr (Database (d\<lparr>plates := None\<rparr>)))"

text \<open>The file behind \<^verbatim>\<open>new SQL.Database()\<close>, and the store with both tables empty.\<close>

definition new_database :: sqlite where
  "new_database = Database \<lparr>plates = None, votes = None\<rparr>"

definition empty_schema :: sqlite where
  "empty_schema = Database \<lparr>plates = Some [], votes = Some []\<rparr>"

section \<open>The blob store and the boot sequence\<close>

text \<open>
  What \<^verbatim>\<open>idbKeyval.get\<close> may return for a key. The serialisation format belongs to the
  engine, not to this program: a byte array is represented by the file its bytes make
  up, so \<^verbatim>\<open>db.export()\<close> yields \<open>Uint8Array\<close> of the handle's file and the constructor
  \<^verbatim>\<open>new SQL.Database(bytes)\<close> yields a handle over that file. \<open>HasBuffer\<close> is a value
  that is not a \<^verbatim>\<open>Uint8Array\<close> but has a \<^verbatim>\<open>buffer\<close> property, with the file that
  \<^verbatim>\<open>new Uint8Array(saved)\<close> makes of it; \<open>Obj\<close> is any other object. Writes to the blob
  store are taken to succeed.
\<close>

datatype idb_value =
    Uint8Array sqlite
  | HasBuffer sqlite
  | Str string
  | Num int
  | Obj

definition DB_KEY :: string where
  "DB_KEY = ''honk_sqlite_v1''"

definition USER_KEY :: string where
  "USER_KEY = ''honk_user_v1''"

record app =
  db :: sqlite
  idb :: "string \<Rightarrow> idb_value option"

definition persistDb :: "app \<Rightarrow> app" where
  "persistDb s = s\<lparr>idb := (idb s)(DB_KEY \<mapsto> Uint8Array (db s))\<rparr>"

text \<open>The last branch of \<^verbatim>\<open>initDb\<close>: a new database, the schema script, then a snapshot.\<close>

definition initDb_fresh :: "(string \<Rightarrow> idb_value option) \<Rightarrow> error option \<times> app" where
  "initDb_fresh store =
     (case run [create_plates_if_not_exists, create_votes_if_not_exists,
                create_index_if_not_exists] new_database of
        (Some e, f) \<Rightarrow> (Some e, \<lparr>db = f, idb = store\<rparr>)
      | (None, f) \<Rightarrow> (None, persistDb \<lparr>db = f, idb = store\<rparr>))"

definition initDb :: "(string \<Rightarrow> idb_value option) \<Rightarrow> error option \<times> app" where
  "initDb store =
     (case store DB_KEY of
        Some (Uint8Array f) \<Rightarrow> (None, \<lparr>db = f, idb = store\<rparr>)
      | Some (HasBuffer f) \<Rightarrow> (None, \<lparr>db = f, idb = store\<rparr>)
      | Some (Str _) \<Rightarrow> initDb_fresh store
      | Some (Num _) \<Rightarrow> initDb_fresh store
      | Some Obj \<Rightarrow> initDb_fresh store
      | None \<Rightarrow> initDb_fresh store)"

text \<open>The profile store. \<^verbatim>\<open>getUser\<close> turns a falsy stored value into \<^verbatim>\<open>null\<close>.\<close>

definition truthy :: "idb_value \<Rightarrow> bool" where
  "truthy v = (case v of Str s \<Rightarrow> s \<noteq> [] | Num n \<Rightarrow> n \<noteq> 0 | _ \<Rightarrow> True)"

definition getUser :: "app \<Rightarrow> idb_value option" where
  "getUser s =
     (case idb s USER_KEY of None \<Rightarrow> None | Some v \<Rightarrow> if truthy v then Some v else None)"

definition setUser :: "string \<Rightarrow> app \<Rightarrow> app" where
  "setUser name s = s\<lparr>idb := (idb s)(USER_KEY \<mapsto> Str name)\<rparr>"

definition clearUser :: "app \<Rightarrow> app" where
  "clearUser s = s\<lparr>idb := (idb s)(USER_KEY := None)\<rparr>"

section \<open>The handlers\<close>

text \<open>
  The common body of \<^verbatim>\<open>votePlus.onclick\<close> and \<^verbatim>\<open>voteMinus.onclick\<close>, which differ in
  the delta only. The error is the one the handler catches and displays.
\<close>

definition vote_onclick :: "int \<Rightarrow> env \<Rightarrow> string \<Rightarrow> app \<Rightarrow> error option \<times> app" where
  "vote_onclick delta e input s =
     (let p = toUpperCase (trim input) in
      if p = [] then (Some PlateRequired, s)
      else
        (case addVote e p delta (db s) of
           (Some err, f) \<Rightarrow> (Some err, s\<lparr>db := f\<rparr>)
         | (None, f) \<Rightarrow> (None, persistDb (s\<lparr>db := f\<rparr>))))"

definition votePlus_onclick :: "env \<Rightarrow> string \<Rightarrow> app \<Rightarrow> error option \<times> app" where
  "votePlus_onclick = vote_onclick 1"

definition voteMinus_onclick :: "env \<Rightarrow> string \<Rightarrow> app \<Rightarrow> error option \<times> app" where
  "voteMinus_onclick = vote_onclick (- 1)"

text \<open>\<^verbatim>\<open>resetDbBtn.onclick\<close>; the flag is the answer to the \<^verbatim>\<open>confirm\<close> dialog.\<close>

definition resetDbBtn_onclick :: "bool \<Rightarrow> app \<Rightarrow> error option \<times> app" where
  "resetDbBtn_onclick confirmed s =
     (if \<not> confirmed then (None, s)
      else
        (case run [drop_votes_if_exists, drop_plates_if_exists] (db s) of
           (Some e, f) \<Rightarrow> (Some e, s\<lparr>db := f\<rparr>)
         | (None, f) \<Rightarrow>
             (case run [create_plates, create_votes, create_index_if_not_exists] f of
                (Some e, f') \<Rightarrow> (Some e, s\<lparr>db := f'\<rparr>)
              | (None, f') \<Rightarrow> (None, persistDb (s\<lparr>db := f'\<rparr>)))))"

section \<open>Sessions\<close>

text \<open>
  What can happen to the running application: a vote, a reset, a snapshot when the page
  is hidden or unloaded, a restart from the blob store, signing in and out. Reading
  the leaderboard changes nothing and is not an event.
\<close>

datatype event =
    VotePlus env string
  | VoteMinus env string
  | Reset bool
  | Hidden
  | Restart
  | SignIn string
  | SignOut

fun step :: "event \<Rightarrow> app \<Rightarrow> app" where
  "step (VotePlus e input) s = snd (votePlus_onclick e input s)"
| "step (VoteMinus e input) s = snd (voteMinus_onclick e input s)"
| "step (Reset confirmed) s = snd (resetDbBtn_onclick confirmed s)"
| "step Hidden s = persistDb s"
| "step Restart s = snd (initDb (idb s))"
| "step (SignIn name) s = setUser name s"
| "step SignOut s = clearUser s"

fun session :: "event list \<Rightarrow> app \<Rightarrow> app" where
  "session [] s = s"
| "session (ev # evs) s = session evs (step ev s)"

text \<open>First boot: the blob store holds nothing.\<close>

definition first_boot :: app where
  "first_boot = snd (initDb (\<lambda>k. None))"

text \<open>
  \<^verbatim>\<open>uuid()\<close> draws 122 random bits; that it never repeats an identifier is an assumption
  on the environment: \<open>fresh_ids\<close> says that every vote of a session draws an identifier
  that the votes table does not hold.
\<close>

definition vote_ids :: "sqlite \<Rightarrow> string list" where
  "vote_ids f = (case votes_of f of Inl _ \<Rightarrow> [] | Inr vs \<Rightarrow> map vote_id vs)"

fun fresh_id :: "event \<Rightarrow> app \<Rightarrow> bool" where
  "fresh_id (VotePlus e input) s = (uuid e \<notin> set (vote_ids (db s)))"
| "fresh_id (VoteMinus e input) s = (uuid e \<notin> set (vote_ids (db s)))"
| "fresh_id ev s = True"

fun fresh_ids :: "event list \<Rightarrow> app \<Rightarrow> bool" where
  "fresh_ids [] s = True"
| "fresh_ids (ev # evs) s = (fresh_id ev s \<and> fresh_ids evs (step ev s))"

text \<open>
  The plate texts of the votes recorded by a session since its last reset, on top of
  those recorded before it.
\<close>

fun recorded :: "event list \<Rightarrow> string list \<Rightarrow> string list" where
  "recorded [] ps = ps"
| "recorded (VotePlus e input # evs) ps =
     recorded evs (if normalize_plate input = [] then ps else ps @ [normalize_plate input])"
| "recorded (VoteMinus e input # evs) ps =
     recorded evs (if normalize_plate input = [] then ps else ps @ [normalize_plate input])"
| "recorded (Reset confirmed # evs) ps = recorded evs (if confirmed then [] else ps)"
| "recorded (ev # evs) ps = recorded evs ps"

section \<open>Reading the tables\<close>

definition score_of :: "sqlite \<Rightarrow> string \<Rightarrow> int option" where
  "score_of f p =
     (case plates_of f of
        Inl _ \<Rightarrow> None
      | Inr ps \<Rightarrow> map_option score (find (\<lambda>r. plate_text r = p) ps))"

definition vote_values :: "sqlite \<Rightarrow> string \<Rightarrow> int list" where
  "vote_values f p =
     (case votes_of f of
        Inl _ \<Rightarrow> []
      | Inr vs \<Rightarrow> map vote_value (filter (\<lambda>r. vote_plate_text r = p) vs))"

definition plate_texts :: "sqlite \<Rightarrow> string list" where
  "plate_texts f = (case plates_of f of Inl _ \<Rightarrow> [] | Inr ps \<Rightarrow> map plate_text ps)"

definition voted_texts :: "sqlite \<Rightarrow> string list" where
  "voted_texts f = (case votes_of f of Inl _ \<Rightarrow> [] | Inr vs \<Rightarrow> map vote_plate_text vs)"

text \<open>The deltas of the calls that name plate \<open>p\<close>, in call order.\<close>

definition deltas_for :: "string \<Rightarrow> call list \<Rightarrow> int list" where
  "deltas_for p calls = map call_value (filter (\<lambda>c. normalize_plate (call_plate c) = p) calls)"

text \<open>
  The rows of \<^verbatim>\<open>plates\<close> after \<^verbatim>\<open>ensurePlateRow\<close> and after the update statement, and
  the score a list of rows holds for a plate text.
\<close>

definition ensured :: "string \<Rightarrow> string \<Rightarrow> plate_row list \<Rightarrow> plate_row list" where
  "ensured p t ps =
     (if list_ex (\<lambda>r. plate_text r = p) ps then ps
      else ps @ [\<lparr>plate_text = p, score = 0, updated_at = t\<rparr>])"

definition bumped :: "int \<Rightarrow> string \<Rightarrow> string \<Rightarrow> plate_row list \<Rightarrow> plate_row list" where
  "bumped v t p ps =
     map (\<lambda>r. if plate_text r = p then r\<lparr>score := score r + v, updated_at := t\<rparr> else r) ps"

definition score_in :: "plate_row list \<Rightarrow> string \<Rightarrow> int option" where
  "score_in ps q = map_option score (find (\<lambda>r. plate_text r = q) ps)"

text \<open>
  What holds of the application between events: both tables exist, their plate texts
  are those of the votes recorded so far, and the blob store holds the image of the
  store as it is.
\<close>

definition session_inv :: "app \<Rightarrow> string list \<Rightarrow> bool" where
  "session_inv s H \<longleftrightarrow>
     (\<exists>ps vs. db s = Database \<lparr>plates = Some ps, votes = Some vs\<rparr>
        \<and> set (map plate_text ps) = set H \<and> set (map vote_plate_text vs) = set H)
     \<and> idb s DB_KEY = Some (Uint8Array (db s))"

section \<open>Normalization\<close>

lemma isWhiteSpace_toUpperChar: "isWhiteSpace (toUpperChar c) = isWhiteSpace c"
  unfolding toUpperChar_def isWhiteSpace_def by auto

lemma toUpperChar_idem: "toUpperChar (toUpperChar c) = toUpperChar c"
  unfolding toUpperChar_def by auto

lemma toUpperCase_idem: "toUpperCase (toUpperCase s) = toUpperCase s"
  by (simp add: toUpperCase_def toUpperChar_idem)

lemma dropWhile_toUpperCase:
  "dropWhile isWhiteSpace (toUpperCase s) = toUpperCase (dropWhile isWhiteSpace s)"
  by (induction s) (simp_all add: toUpperCase_def isWhiteSpace_toUpperChar)

lemma trim_toUpperCase: "trim (toUpperCase s) = toUpperCase (trim s)"
proof -
  have r: "rev (toUpperCase t) = toUpperCase (rev t)" for t
    by (simp add: toUpperCase_def rev_map)
  show ?thesis
    by (simp add: trim_def dropWhile_toUpperCase r)
qed


lemma trim_fix:
  assumes "s = [] \<or> (\<not> isWhiteSpace (hd s) \<and> \<not> isWhiteSpace (last s))"
  shows "trim s = s"
proof (cases "s = []")
  case True then show ?thesis by (simp add: trim_def)
next
  case False
  with assms have h: "\<not> isWhiteSpace (hd s)" and l: "\<not> isWhiteSpace (last s)" by auto
  from False h have 1: "dropWhile isWhiteSpace s = s" by (cases s) auto
  from False l have 2: "dropWhile isWhiteSpace (rev s) = rev s"
    by (cases "rev s") (auto simp: last_rev[symmetric] hd_rev)
  show ?thesis by (simp add: trim_def 1 2)
qed

lemma dropWhile_snoc_keep:
  "\<not> P x \<Longrightarrow> \<exists>zs. dropWhile P (ys @ [x]) = zs @ [x] \<and> (zs = [] \<or> \<not> P (hd zs))"
  by (induction ys) auto

lemma trim_ends:
  "trim s = [] \<or> (\<not> isWhiteSpace (hd (trim s)) \<and> \<not> isWhiteSpace (last (trim s)))"
proof (cases "dropWhile isWhiteSpace s")
  case Nil
  have "trim s = []" unfolding trim_def Nil by simp
  then show ?thesis ..
next
  case (Cons x xs)
  then have nx: "\<not> isWhiteSpace x"
    using hd_dropWhile[of isWhiteSpace s] by auto
  from nx dropWhile_snoc_keep[of isWhiteSpace x "rev xs"] obtain zs where
    zs: "dropWhile isWhiteSpace (rev xs @ [x]) = zs @ [x]" "zs = [] \<or> \<not> isWhiteSpace (hd zs)"
    by blast
  have t: "trim s = x # rev zs"
    by (simp add: trim_def Cons zs(1))
  show ?thesis using nx zs(2) by (cases zs) (auto simp: t)
qed

lemma trim_idem: "trim (trim s) = trim s"
  by (rule trim_fix) (rule trim_ends)


lemma normalize_idem: "normalize_plate (normalize_plate s) = normalize_plate s"
  by (simp add: normalize_plate_def trim_toUpperCase trim_idem toUpperCase_idem)



lemma addVote_blank: "normalize_plate plate = [] \<Longrightarrow> addVote e plate v f = (Some PlateRequired, f)"
  by (simp add: addVote_def normalize_plate_def)

lemma trim_Nil_iff: "trim s = [] \<longleftrightarrow> list_all isWhiteSpace s"
proof
  assume t: "trim s = []"
  show "list_all isWhiteSpace s"
  proof (rule ccontr)
    assume "\<not> list_all isWhiteSpace s"
    then obtain c where c: "c \<in> set s" "\<not> isWhiteSpace c" by (auto simp: list_all_iff)
    then have "c \<in> set (dropWhile isWhiteSpace s)"
      by (metis dropWhile_eq_Nil_conv dropWhile_append1 set_takeWhileD takeWhile_dropWhile_id Un_iff set_append)
    moreover from t have "\<forall>x\<in>set (dropWhile isWhiteSpace s). isWhiteSpace x"
      by (simp add: trim_def)
    ultimately show False using c by blast
  qed
next
  assume "list_all isWhiteSpace s"
  then have "dropWhile isWhiteSpace s = []" by (simp add: list_all_iff)
  then show "trim s = []" by (simp only: trim_def) simp
qed

lemma normalize_plate_Nil_iff: "normalize_plate s = [] \<longleftrightarrow> list_all isWhiteSpace s"
  by (simp add: normalize_plate_def toUpperCase_def trim_Nil_iff)

lemma vote_onclick_blank:
  "normalize_plate input = [] \<Longrightarrow> vote_onclick delta e input s = (Some PlateRequired, s)"
  by (simp add: vote_onclick_def normalize_plate_def)

section \<open>Normalization over any repertoire, and letter case\<close>








lemma case_table_ascii: "case_table isWhiteSpace (\<lambda>c. [toUpperChar c])"
  by (simp add: case_table_def isWhiteSpace_toUpperChar toUpperChar_idem)









section \<open>One vote on a store with both tables\<close>


lemma plates_of_Database [simp]:
  "plates_of (Database \<lparr>plates = Some ps, votes = vo\<rparr>) = Inr ps"
  by (simp add: plates_of_def)

lemma votes_of_Database [simp]:
  "votes_of (Database \<lparr>plates = po, votes = Some vs\<rparr>) = Inr vs"
  by (simp add: votes_of_def)

lemma set_plates_Database [simp]:
  "set_plates ps' (Database \<lparr>plates = po, votes = vo\<rparr>) = Database \<lparr>plates = Some ps', votes = vo\<rparr>"
  by (simp add: set_plates_def)

lemma set_votes_Database [simp]:
  "set_votes vs' (Database \<lparr>plates = po, votes = vo\<rparr>) = Database \<lparr>plates = po, votes = Some vs'\<rparr>"
  by (simp add: set_votes_def)

lemma ensurePlateRow_Database:
  "ensurePlateRow t p (Database \<lparr>plates = Some ps, votes = vo\<rparr>)
   = Inr (Database \<lparr>plates = Some (ensured p t ps), votes = vo\<rparr>)"
  by (simp add: ensurePlateRow_def select_plate_def insert_plate_def ensured_def)

lemma update_plate_Database:
  "update_plate v t p (Database \<lparr>plates = Some ps, votes = vo\<rparr>)
   = Inr (Database \<lparr>plates = Some (bumped v t p ps), votes = vo\<rparr>)"
  by (simp add: update_plate_def bumped_def)

lemma insert_vote_Database:
  "insert_vote i p v t (Database \<lparr>plates = po, votes = Some vs\<rparr>)
   = (if v \<noteq> - 1 \<and> v \<noteq> 1 then Inl CheckFailed
      else if i \<in> set (map vote_id vs) then Inl UniqueFailed
      else Inr (Database \<lparr>plates = po, votes = Some (vs @ [\<lparr>vote_id = i, vote_plate_text = p, vote_value = v, created_at = t\<rparr>])\<rparr>))"
  by (auto simp add: insert_vote_def list_ex_iff)

lemma addVote_Database:
  assumes "normalize_plate plate \<noteq> []"
  shows "addVote e plate v (Database \<lparr>plates = Some ps, votes = Some vs\<rparr>)
   = (if v \<noteq> - 1 \<and> v \<noteq> 1 then
        (Some CheckFailed, Database \<lparr>plates = Some (bumped v (now_update e) (normalize_plate plate) (ensured (normalize_plate plate) (now_ensure e) ps)), votes = Some vs\<rparr>)
      else if uuid e \<in> set (map vote_id vs) then
        (Some UniqueFailed, Database \<lparr>plates = Some (bumped v (now_update e) (normalize_plate plate) (ensured (normalize_plate plate) (now_ensure e) ps)), votes = Some vs\<rparr>)
      else (None, Database \<lparr>plates = Some (bumped v (now_update e) (normalize_plate plate) (ensured (normalize_plate plate) (now_ensure e) ps)),
              votes = Some (vs @ [\<lparr>vote_id = uuid e, vote_plate_text = normalize_plate plate, vote_value = v, created_at = now_insert e\<rparr>])\<rparr>))"
  using assms
  by (simp add: addVote_def Let_def normalize_plate_def ensurePlateRow_Database update_plate_Database insert_vote_Database)

lemma texts_bumped [simp]: "map plate_text (bumped v t p ps) = map plate_text ps"
  by (induction ps) (simp_all add: bumped_def)

lemma texts_ensured:
  "map plate_text (ensured p t ps) = (if p \<in> set (map plate_text ps) then map plate_text ps else map plate_text ps @ [p])"
  by (auto simp add: ensured_def list_ex_iff)

lemma score_in_bumped:
  "score_in (bumped v t p ps) q = (if q = p then map_option (\<lambda>s. s + v) (score_in ps q) else score_in ps q)"
  by (induction ps) (auto simp add: bumped_def score_in_def)

lemma find_snoc:
  "find P (xs @ [y]) = (case find P xs of None \<Rightarrow> (if P y then Some y else None) | Some x \<Rightarrow> Some x)"
  by (induction xs) simp_all

lemma score_in_ensured:
  "score_in (ensured p t ps) q = (if q = p \<and> score_in ps q = None then Some 0 else score_in ps q)"
proof (cases "list_ex (\<lambda>r. plate_text r = p) ps")
  case True
  then have "find (\<lambda>r. plate_text r = p) ps \<noteq> None"
    by (auto simp add: list_ex_iff find_None_iff)
  with True show ?thesis by (auto simp add: ensured_def score_in_def)
next
  case False
  then have "find (\<lambda>r. plate_text r = p) ps = None"
    by (auto simp add: list_ex_iff find_None_iff)
  with False show ?thesis
    by (auto simp add: ensured_def score_in_def find_snoc split: option.splits)
qed

lemma addVotes_append: "addVotes (xs @ ys) f = addVotes ys (addVotes xs f)"
  by (induction xs arbitrary: f) auto

lemma deltas_for_snoc:
  "deltas_for q (cs @ [(e, plate, v)]) = (if normalize_plate plate = q then deltas_for q cs @ [v] else deltas_for q cs)"
  by (simp add: deltas_for_def call_plate_def call_value_def)

lemma addVotes_tables:
  assumes "distinct (map call_id calls)"
    and "\<forall>c \<in> set calls. call_value c = 1 \<or> call_value c = - 1"
  shows "\<exists>ps vs. addVotes calls empty_schema = Database \<lparr>plates = Some ps, votes = Some vs\<rparr>
           \<and> set (map vote_id vs) \<subseteq> set (map call_id calls)
           \<and> (\<forall>q. q \<noteq> [] \<longrightarrow> score_in ps q =
                  (if deltas_for q calls = [] then None else Some (sum_list (deltas_for q calls))))
           \<and> (\<forall>q. q \<noteq> [] \<longrightarrow>
                  map vote_value (filter (\<lambda>r. vote_plate_text r = q) vs) = deltas_for q calls)"
  using assms
proof (induction calls rule: rev_induct)
  case Nil
  then show ?case by (simp add: empty_schema_def score_in_def deltas_for_def)
next
  case (snoc c cs)
  obtain e plate v where c: "c = (e, plate, v)" by (cases c)
  have cid: "call_id c = uuid e" and cv: "call_value c = v"
    by (simp_all add: c call_id_def call_value_def)
  from snoc.prems have d: "distinct (map call_id cs)"
    and fresh: "uuid e \<notin> set (map call_id cs)"
    and v: "v = 1 \<or> v = - 1"
    and vs: "\<forall>c \<in> set cs. call_value c = 1 \<or> call_value c = - 1"
    by (auto simp: cid cv)
  from snoc.IH[OF d vs] obtain ps vs where
    f: "addVotes cs empty_schema = Database \<lparr>plates = Some ps, votes = Some vs\<rparr>"
    and ids: "set (map vote_id vs) \<subseteq> set (map call_id cs)"
    and sc: "\<And>q. q \<noteq> [] \<Longrightarrow> score_in ps q =
                  (if deltas_for q cs = [] then None else Some (sum_list (deltas_for q cs)))"
    and vv: "\<And>q. q \<noteq> [] \<Longrightarrow>
                  map vote_value (filter (\<lambda>r. vote_plate_text r = q) vs) = deltas_for q cs"
    by blast
  show ?case
  proof (cases "normalize_plate plate = []")
    case True
    have "addVotes (cs @ [c]) empty_schema = Database \<lparr>plates = Some ps, votes = Some vs\<rparr>"
      by (simp add: addVotes_append c f addVote_blank[OF True])
    moreover have "deltas_for q (cs @ [c]) = deltas_for q cs" if "q \<noteq> []" for q
      using that True by (auto simp: c deltas_for_snoc)
    ultimately show ?thesis using ids sc vv by (auto simp: c)
  next
    case False
    let ?p = "normalize_plate plate"
    let ?ps = "bumped v (now_update e) ?p (ensured ?p (now_ensure e) ps)"
    let ?vs = "vs @ [\<lparr>vote_id = uuid e, vote_plate_text = ?p, vote_value = v, created_at = now_insert e\<rparr>]"
    from fresh ids have nid: "uuid e \<notin> set (map vote_id vs)" by blast
    have r: "addVotes (cs @ [c]) empty_schema = Database \<lparr>plates = Some ?ps, votes = Some ?vs\<rparr>"
      using v nid by (auto simp add: addVotes_append c f addVote_Database[OF False])
    have i: "set (map vote_id ?vs) \<subseteq> set (map call_id (cs @ [c]))"
      using ids by (auto simp: cid)
    have s: "score_in ?ps q =
                  (if deltas_for q (cs @ [c]) = [] then None else Some (sum_list (deltas_for q (cs @ [c]))))"
      if "q \<noteq> []" for q
      using sc[OF that] by (auto simp: c deltas_for_snoc score_in_bumped score_in_ensured split: if_splits)
    have w: "map vote_value (filter (\<lambda>r. vote_plate_text r = q) ?vs) = deltas_for q (cs @ [c])"
      if "q \<noteq> []" for q
      using vv[OF that] by (auto simp: c deltas_for_snoc)
    from r i s w show ?thesis by blast
  qed
qed

lemma addVotes_score_of:
  assumes "distinct (map call_id calls)"
    and "\<forall>c \<in> set calls. call_value c = 1 \<or> call_value c = - 1"
    and "p \<noteq> []"
  shows "score_of (addVotes calls empty_schema) p =
           (if deltas_for p calls = [] then None else Some (sum_list (deltas_for p calls)))
         \<and> vote_values (addVotes calls empty_schema) p = deltas_for p calls"
  using addVotes_tables[OF assms(1,2)] assms(3)
  by (auto simp add: score_of_def vote_values_def score_in_def)




section \<open>Boot, snapshot and reset\<close>

lemma keys_differ: "DB_KEY \<noteq> USER_KEY"
  by (simp add: DB_KEY_def USER_KEY_def)

lemma initDb_fresh_eq:
  "initDb_fresh store = (None, \<lparr>db = empty_schema, idb = store(DB_KEY \<mapsto> Uint8Array empty_schema)\<rparr>)"
  by (simp add: initDb_fresh_def new_database_def empty_schema_def persistDb_def
      create_plates_if_not_exists_def create_votes_if_not_exists_def
      create_index_if_not_exists_def votes_of_def)

lemma database_updates:
  "(d :: database)\<lparr>plates := a, votes := b\<rparr> = \<lparr>plates = a, votes = b\<rparr>"
  "(d :: database)\<lparr>votes := b, plates := a\<rparr> = \<lparr>plates = a, votes = b\<rparr>"
  by (cases d, simp)+

lemma reset_Database:
  "resetDbBtn_onclick True \<lparr>db = Database d, idb = store\<rparr>
   = (None, \<lparr>db = empty_schema, idb = store(DB_KEY \<mapsto> Uint8Array empty_schema)\<rparr>)"
  by (simp add: resetDbBtn_onclick_def empty_schema_def persistDb_def
      drop_votes_if_exists_def drop_plates_if_exists_def create_plates_def create_votes_def
      create_index_if_not_exists_def votes_of_def database_updates)

lemma reset_NotADatabase:
  "resetDbBtn_onclick True \<lparr>db = NotADatabase b, idb = store\<rparr>
   = (Some NotADb, \<lparr>db = NotADatabase b, idb = store\<rparr>)"
  by (simp add: resetDbBtn_onclick_def drop_votes_if_exists_def)

lemma queryLeaderboard_empty:
  "queryLeaderboard empty_schema = Inr \<lparr>best = [], worst = []\<rparr>"
  by (simp add: queryLeaderboard_def select_best_def select_worst_def empty_schema_def)

lemma initDb_Uint8Array:
  "store DB_KEY = Some (Uint8Array f) \<Longrightarrow> initDb store = (None, \<lparr>db = f, idb = store\<rparr>)"
  by (simp add: initDb_def)

lemma initDb_HasBuffer:
  "store DB_KEY = Some (HasBuffer f) \<Longrightarrow> initDb store = (None, \<lparr>db = f, idb = store\<rparr>)"
  by (simp add: initDb_def)

lemma score_of_Database [simp]:
  "score_of (Database \<lparr>plates = Some ps, votes = vo\<rparr>) q = score_in ps q"
  by (simp add: score_of_def score_in_def)

lemma plate_texts_Database [simp]:
  "plate_texts (Database \<lparr>plates = Some ps, votes = vo\<rparr>) = map plate_text ps"
  by (simp add: plate_texts_def)

lemma scenario_norms:
  "normalize_plate ''abc 123'' = ''ABC 123''"
  "normalize_plate ''ABC123'' = ''ABC123''"
  "normalize_plate ''xyz999'' = ''XYZ999''"
  "normalize_plate '' abc123 '' = ''ABC123''"
  by code_simp+

section \<open>The session invariant\<close>

lemma session_inv_first_boot: "session_inv first_boot []"
  by (simp add: session_inv_def first_boot_def initDb_def initDb_fresh_eq empty_schema_def)

lemma vote_ids_Database [simp]:
  "vote_ids (Database \<lparr>plates = po, votes = Some vs\<rparr>) = map vote_id vs"
  by (simp add: vote_ids_def)

lemma image_texts_bumped [simp]:
  "plate_text ` set (bumped v t p ps) = plate_text ` set ps"
  using texts_bumped[of v t p ps] by (metis set_map)

lemma session_inv_vote:
  assumes inv: "session_inv s H" and fresh: "uuid e \<notin> set (vote_ids (db s))"
    and v: "v = 1 \<or> v = - 1"
  shows "session_inv (snd (vote_onclick v e input s))
           (if normalize_plate input = [] then H else H @ [normalize_plate input])"
proof (cases "normalize_plate input = []")
  case True
  with inv show ?thesis by (simp add: vote_onclick_blank)
next
  case False
  from inv obtain ps vs where d: "db s = Database \<lparr>plates = Some ps, votes = Some vs\<rparr>"
    and p: "set (map plate_text ps) = set H" and w: "set (map vote_plate_text vs) = set H"
    by (auto simp: session_inv_def)
  let ?p = "normalize_plate input"
  have n: "normalize_plate ?p \<noteq> []" using False by (simp add: normalize_idem)
  from fresh d have f: "uuid e \<notin> set (map vote_id vs)" by simp
  have a: "addVote e ?p v (db s) =
      (None, Database \<lparr>plates = Some (bumped v (now_update e) ?p (ensured ?p (now_ensure e) ps)),
         votes = Some (vs @ [\<lparr>vote_id = uuid e, vote_plate_text = ?p, vote_value = v,
                                created_at = now_insert e\<rparr>])\<rparr>)"
    using v f by (auto simp add: d addVote_Database[OF n] normalize_idem)
  have t: "set (map plate_text (bumped v (now_update e) ?p (ensured ?p (now_ensure e) ps)))
           = set (H @ [?p])"
    using p by (auto simp add: texts_ensured)
  have u: "set (map vote_plate_text (vs @ [\<lparr>vote_id = uuid e, vote_plate_text = ?p, vote_value = v,
                                created_at = now_insert e\<rparr>])) = set (H @ [?p])"
    using w by auto
  have "vote_onclick v e input s =
      (None, persistDb (s\<lparr>db := Database \<lparr>plates = Some (bumped v (now_update e) ?p (ensured ?p (now_ensure e) ps)),
         votes = Some (vs @ [\<lparr>vote_id = uuid e, vote_plate_text = ?p, vote_value = v,
                                created_at = now_insert e\<rparr>])\<rparr>\<rparr>))"
    using False a by (simp add: vote_onclick_def normalize_plate_def[symmetric] Let_def)
  then show ?thesis
    using False t u by (simp add: session_inv_def persistDb_def)
qed

lemma session_inv_step:
  assumes "session_inv s H" and "fresh_id ev s"
  shows "session_inv (step ev s) (recorded [ev] H)"
proof (cases ev)
  case (VotePlus e input)
  with assms show ?thesis
    using session_inv_vote[of s H e 1 input] by (simp add: votePlus_onclick_def)
next
  case (VoteMinus e input)
  with assms show ?thesis
    using session_inv_vote[of s H e "- 1" input] by (simp add: voteMinus_onclick_def)
next
  case (Reset confirmed)
  show ?thesis
  proof (cases confirmed)
    case True
    from assms(1) obtain d where "db s = Database d" by (auto simp: session_inv_def)
    then have "s = \<lparr>db = Database d, idb = idb s\<rparr>" by (cases s) simp
    then have "resetDbBtn_onclick True s
      = (None, \<lparr>db = empty_schema, idb = (idb s)(DB_KEY \<mapsto> Uint8Array empty_schema)\<rparr>)"
      using reset_Database[of d "idb s"] by simp
    with True Reset show ?thesis by (simp add: session_inv_def empty_schema_def)
  next
    case False
    with assms(1) Reset show ?thesis by (simp add: resetDbBtn_onclick_def)
  qed
next
  case Hidden
  with assms(1) show ?thesis by (auto simp add: session_inv_def persistDb_def)
next
  case Restart
  from assms(1) have "idb s DB_KEY = Some (Uint8Array (db s))" by (simp add: session_inv_def)
  then have "initDb (idb s) = (None, \<lparr>db = db s, idb = idb s\<rparr>)" by (rule initDb_Uint8Array)
  with assms(1) Restart show ?thesis by (simp add: session_inv_def)
next
  case (SignIn name)
  with assms(1) keys_differ show ?thesis by (auto simp add: session_inv_def setUser_def)
next
  case SignOut
  with assms(1) keys_differ show ?thesis by (auto simp add: session_inv_def clearUser_def)
qed

lemma recorded_Cons: "recorded (ev # evs) H = recorded evs (recorded [ev] H)"
  by (cases ev) simp_all

lemma session_inv_session:
  "session_inv s H \<Longrightarrow> fresh_ids evs s \<Longrightarrow> session_inv (session evs s) (recorded evs H)"
proof (induction evs arbitrary: s H)
  case Nil
  then show ?case by simp
next
  case (Cons ev evs)
  from Cons.prems have "session_inv (step ev s) (recorded [ev] H)"
    by (simp add: session_inv_step)
  moreover from Cons.prems have "fresh_ids evs (step ev s)" by simp
  ultimately have "session_inv (session evs (step ev s)) (recorded evs (recorded [ev] H))"
    by (rule Cons.IH)
  then show ?case by (simp add: recorded_Cons[of ev evs H])
qed

section \<open>Scores and votes\<close>

text \<open>
  Claim C1. Starting from the empty schema, let any sequence of \<^verbatim>\<open>addVote\<close> calls run,
  each with a delta of +1 or -1 and each drawing an identifier no other call drew. Then
  for every non-empty plate text \<open>p\<close> the score column of the \<^verbatim>\<open>plates\<close> row of \<open>p\<close> is
  the sum of the deltas of the calls whose normalized plate is \<open>p\<close> (and there is no row
  when there is no such call), and the values of the \<^verbatim>\<open>votes\<close> rows of \<open>p\<close> are exactly
  those deltas, so the score is the sum of \<^verbatim>\<open>value\<close> over the votes rows of the plate.
  When every call names the normalized plate \<open>p\<close> itself, the deltas are \<open>d1..dn\<close>.
\<close>

theorem addVotes_score_is_sum:
  assumes "distinct (map call_id calls)"
    and "\<forall>c \<in> set calls. call_value c = 1 \<or> call_value c = - 1"
    and "p \<noteq> []"
  shows "score_of (addVotes calls empty_schema) p =
           (if deltas_for p calls = [] then None else Some (sum_list (deltas_for p calls)))
         \<and> vote_values (addVotes calls empty_schema) p = deltas_for p calls
         \<and> (\<forall>n. score_of (addVotes calls empty_schema) p = Some n \<longrightarrow>
               n = sum_list (vote_values (addVotes calls empty_schema) p))"
  using addVotes_score_of [OF assms] by (auto split: if_splits)

theorem addVotes_score_is_sum_witness:
  "score_of
     (addVotes
        [(\<lparr>now_ensure = ''t1'', now_update = ''t2'', now_insert = ''t3'', uuid = ''u1''\<rparr>, ''ABC123'', 1),
         (\<lparr>now_ensure = ''t4'', now_update = ''t5'', now_insert = ''t6'', uuid = ''u2''\<rparr>, ''ABC123'', - 1),
         (\<lparr>now_ensure = ''t7'', now_update = ''t8'', now_insert = ''t9'', uuid = ''u3''\<rparr>, ''ABC123'', - 1)]
        empty_schema) ''ABC123'' = Some (- 1)
   \<and> vote_values
     (addVotes
        [(\<lparr>now_ensure = ''t1'', now_update = ''t2'', now_insert = ''t3'', uuid = ''u1''\<rparr>, ''ABC123'', 1),
         (\<lparr>now_ensure = ''t4'', now_update = ''t5'', now_insert = ''t6'', uuid = ''u2''\<rparr>, ''ABC123'', - 1),
         (\<lparr>now_ensure = ''t7'', now_update = ''t8'', now_insert = ''t9'', uuid = ''u3''\<rparr>, ''ABC123'', - 1)]
        empty_schema) ''ABC123'' = [1, - 1, - 1]"
proof -
  let ?calls =
    "[(\<lparr>now_ensure = ''t1'', now_update = ''t2'', now_insert = ''t3'', uuid = ''u1''\<rparr>, ''ABC123'', 1),
      (\<lparr>now_ensure = ''t4'', now_update = ''t5'', now_insert = ''t6'', uuid = ''u2''\<rparr>, ''ABC123'', - 1),
      (\<lparr>now_ensure = ''t7'', now_update = ''t8'', now_insert = ''t9'', uuid = ''u3''\<rparr>, ''ABC123'', - 1)]
     :: call list"
  have h1: "distinct (map call_id ?calls)" by (simp add: call_id_def)
  have h2: "\<forall>c \<in> set ?calls. call_value c = 1 \<or> call_value c = - 1"
    by (simp add: call_value_def)
  have h3: "''ABC123'' \<noteq> []" by simp
  have d: "deltas_for ''ABC123'' ?calls = [1, - 1, - 1]" by code_simp
  from addVotes_score_is_sum [OF h1 h2 h3] show ?thesis by (simp add: d)
qed

section \<open>Rejected input\<close>

text \<open>
  Claim C7. A plate text normalizes to the empty string exactly when it is empty or
  consists of whitespace only. For every such input \<^verbatim>\<open>addVote\<close> raises
  \<^verbatim>\<open>Error("Plate required")\<close> and leaves the store as it found it, so the row counts of
  both tables are what they were; the vote handlers return at their own guard with
  the application state untouched.
\<close>

theorem addVote_blank_rejected:
  "(normalize_plate plate = [] \<longleftrightarrow> list_all isWhiteSpace plate)
   \<and> (normalize_plate plate = [] \<longrightarrow>
        addVote e plate v f = (Some PlateRequired, f)
        \<and> vote_onclick v e plate s = (Some PlateRequired, s))"
  by (simp add: normalize_plate_Nil_iff[symmetric] addVote_blank vote_onclick_blank)

theorem addVote_blank_rejected_witness:
  "normalize_plate [CHR 0x09, CHR '' ''] = []
   \<and> addVote \<lparr>now_ensure = ''t1'', now_update = ''t2'', now_insert = ''t3'', uuid = ''u1''\<rparr>
        [CHR 0x09, CHR '' ''] 1 empty_schema = (Some PlateRequired, empty_schema)"
proof -
  have h: "normalize_plate [CHR 0x09, CHR '' ''] = []" by code_simp
  have "normalize_plate [CHR 0x09, CHR '' ''] = [] \<longrightarrow>
        addVote \<lparr>now_ensure = ''t1'', now_update = ''t2'', now_insert = ''t3'', uuid = ''u1''\<rparr>
          [CHR 0x09, CHR '' ''] 1 empty_schema = (Some PlateRequired, empty_schema)
        \<and> vote_onclick 1 \<lparr>now_ensure = ''t1'', now_update = ''t2'', now_insert = ''t3'', uuid = ''u1''\<rparr>
          [CHR 0x09, CHR '' ''] \<lparr>db = empty_schema, idb = \<lambda>k. None\<rparr>
          = (Some PlateRequired, \<lparr>db = empty_schema, idb = \<lambda>k. None\<rparr>)"
    by (rule conjunct2 [OF addVote_blank_rejected])
  from this h have "addVote \<lparr>now_ensure = ''t1'', now_update = ''t2'', now_insert = ''t3'', uuid = ''u1''\<rparr>
          [CHR 0x09, CHR '' ''] 1 empty_schema = (Some PlateRequired, empty_schema)
        \<and> vote_onclick 1 \<lparr>now_ensure = ''t1'', now_update = ''t2'', now_insert = ''t3'', uuid = ''u1''\<rparr>
          [CHR 0x09, CHR '' ''] \<lparr>db = empty_schema, idb = \<lambda>k. None\<rparr>
          = (Some PlateRequired, \<lparr>db = empty_schema, idb = \<lambda>k. None\<rparr>)"
    by (rule mp)
  then have "addVote \<lparr>now_ensure = ''t1'', now_update = ''t2'', now_insert = ''t3'', uuid = ''u1''\<rparr>
          [CHR 0x09, CHR '' ''] 1 empty_schema = (Some PlateRequired, empty_schema)"
    by (rule conjunct1)
  with h show ?thesis by (rule conjI)
qed

section \<open>Plate identity\<close>



section \<open>A delta that is not a unit\<close>

text \<open>
  Claim C2, as amended. On a store with both tables, \<^verbatim>\<open>addVote\<close> with a non-blank plate
  and a delta other than +1 and -1 fails with the check constraint of \<^verbatim>\<open>votes.value\<close>,
  raised by the insert into \<^verbatim>\<open>votes\<close>, and the votes table is what it was. The two
  statements before the insert stay applied, there being no transaction: the plate has
  a \<^verbatim>\<open>plates\<close> row afterwards (appended when it had none) and the score of every other
  plate is unchanged. When the delta is a 32-bit integer and the old score (0 for a new
  row) and its sum with the delta lie in the 64-bit range, the score of the plate is
  that sum; outside these bounds the engine adds in floating point and the new score
  is left open.
\<close>

theorem addVote_bad_delta:
  assumes "normalize_plate plate \<noteq> []" and "v \<noteq> 1" and "v \<noteq> - 1"
  shows "fst (addVote e plate v (Database \<lparr>plates = Some ps, votes = Some vs\<rparr>)) = Some CheckFailed
    \<and> votes_of (snd (addVote e plate v (Database \<lparr>plates = Some ps, votes = Some vs\<rparr>))) = Inr vs
    \<and> plate_texts (snd (addVote e plate v (Database \<lparr>plates = Some ps, votes = Some vs\<rparr>)))
        = (if normalize_plate plate \<in> set (map plate_text ps) then map plate_text ps
           else map plate_text ps @ [normalize_plate plate])
    \<and> (\<forall>q. q \<noteq> normalize_plate plate \<longrightarrow>
          score_of (snd (addVote e plate v (Database \<lparr>plates = Some ps, votes = Some vs\<rparr>))) q
          = score_in ps q)
    \<and> (int32 v
        \<and> int64 (case score_in ps (normalize_plate plate) of None \<Rightarrow> 0 | Some n \<Rightarrow> n)
        \<and> int64 ((case score_in ps (normalize_plate plate) of None \<Rightarrow> 0 | Some n \<Rightarrow> n) + v) \<longrightarrow>
          score_of (snd (addVote e plate v (Database \<lparr>plates = Some ps, votes = Some vs\<rparr>)))
            (normalize_plate plate)
          = Some ((case score_in ps (normalize_plate plate) of None \<Rightarrow> 0 | Some n \<Rightarrow> n) + v))"
  using assms
  by (auto simp add: addVote_Database score_in_bumped score_in_ensured texts_ensured
      split: option.splits)

theorem addVote_bad_delta_witness:
  "normalize_plate ''abc123'' \<noteq> []
   \<and> int32 5 \<and> int64 0 \<and> int64 (0 + 5)
   \<and> fst (addVote \<lparr>now_ensure = ''t1'', now_update = ''t2'', now_insert = ''t3'', uuid = ''u1''\<rparr>
            ''abc123'' 5 (Database \<lparr>plates = Some [], votes = Some []\<rparr>)) = Some CheckFailed
   \<and> votes_of (snd (addVote \<lparr>now_ensure = ''t1'', now_update = ''t2'', now_insert = ''t3'', uuid = ''u1''\<rparr>
            ''abc123'' 5 (Database \<lparr>plates = Some [], votes = Some []\<rparr>))) = Inr []
   \<and> plate_texts (snd (addVote \<lparr>now_ensure = ''t1'', now_update = ''t2'', now_insert = ''t3'', uuid = ''u1''\<rparr>
            ''abc123'' 5 (Database \<lparr>plates = Some [], votes = Some []\<rparr>))) = [''ABC123'']
   \<and> score_of (snd (addVote \<lparr>now_ensure = ''t1'', now_update = ''t2'', now_insert = ''t3'', uuid = ''u1''\<rparr>
            ''abc123'' 5 (Database \<lparr>plates = Some [], votes = Some []\<rparr>))) ''ABC123'' = Some 5
   \<and> score_of (snd (addVote \<lparr>now_ensure = ''t1'', now_update = ''t2'', now_insert = ''t3'', uuid = ''u1''\<rparr>
            ''abc123'' 5 (Database \<lparr>plates = Some [], votes = Some []\<rparr>))) ''XYZ999'' = None"
proof -
  have n: "normalize_plate ''abc123'' = ''ABC123''" by code_simp
  then have h: "normalize_plate ''abc123'' \<noteq> []" by simp
  have v: "(5::int) \<noteq> 1" "(5::int) \<noteq> - 1" by simp_all
  have b: "int32 5 \<and> int64 0 \<and> int64 (0 + 5)" by (simp add: int32_def int64_def)
  from b addVote_bad_delta [OF h v, of
      "\<lparr>now_ensure = ''t1'', now_update = ''t2'', now_insert = ''t3'', uuid = ''u1''\<rparr>" "[]" "[]"]
  show ?thesis by (simp add: n score_in_def)
qed

text \<open>
  The claim as it was stated, that the failed call leaves the row counts and the scores
  alone, fails on the empty schema: the call \<^verbatim>\<open>addVote("ABC123", 5)\<close> leaves a \<^verbatim>\<open>plates\<close>
  row of score 5 behind. After one vote of +1 for the plate, the same call moves the
  score from 1 to 6 while the votes table still holds the single +1.
\<close>

theorem addVote_bad_delta_counterexample:
  "fst (addVote \<lparr>now_ensure = ''t1'', now_update = ''t2'', now_insert = ''t3'', uuid = ''u1''\<rparr>
          ''ABC123'' 5 empty_schema) = Some CheckFailed
   \<and> plate_texts (snd (addVote \<lparr>now_ensure = ''t1'', now_update = ''t2'', now_insert = ''t3'', uuid = ''u1''\<rparr>
          ''ABC123'' 5 empty_schema)) = [''ABC123'']
   \<and> score_of (snd (addVote \<lparr>now_ensure = ''t1'', now_update = ''t2'', now_insert = ''t3'', uuid = ''u1''\<rparr>
          ''ABC123'' 5 empty_schema)) ''ABC123'' = Some 5
   \<and> plate_texts empty_schema = []
   \<and> score_of (addVotes [(\<lparr>now_ensure = ''t1'', now_update = ''t2'', now_insert = ''t3'', uuid = ''u1''\<rparr>, ''ABC123'', 1)] empty_schema) ''ABC123'' = Some 1
   \<and> fst (addVote \<lparr>now_ensure = ''t4'', now_update = ''t5'', now_insert = ''t6'', uuid = ''u2''\<rparr>
          ''ABC123'' 5 (addVotes [(\<lparr>now_ensure = ''t1'', now_update = ''t2'', now_insert = ''t3'', uuid = ''u1''\<rparr>, ''ABC123'', 1)] empty_schema)) = Some CheckFailed
   \<and> score_of (snd (addVote \<lparr>now_ensure = ''t4'', now_update = ''t5'', now_insert = ''t6'', uuid = ''u2''\<rparr>
          ''ABC123'' 5 (addVotes [(\<lparr>now_ensure = ''t1'', now_update = ''t2'', now_insert = ''t3'', uuid = ''u1''\<rparr>, ''ABC123'', 1)] empty_schema))) ''ABC123'' = Some 6
   \<and> vote_values (snd (addVote \<lparr>now_ensure = ''t4'', now_update = ''t5'', now_insert = ''t6'', uuid = ''u2''\<rparr>
          ''ABC123'' 5 (addVotes [(\<lparr>now_ensure = ''t1'', now_update = ''t2'', now_insert = ''t3'', uuid = ''u1''\<rparr>, ''ABC123'', 1)] empty_schema))) ''ABC123'' = [1]"
  by code_simp

section \<open>The three-vote scenario\<close>

text \<open>
  Claim C3, as amended. \<^verbatim>\<open>trim\<close> removes surrounding whitespace only, so \<open>''abc 123''\<close>
  becomes the plate \<open>''ABC 123''\<close>, which is not the plate \<open>''ABC123''\<close>. From the empty
  schema the votes \<open>''abc 123''\<close> +1, \<open>''ABC123''\<close> +1, \<open>''xyz999''\<close> -1 give a positive
  leaderboard of two entries, \<open>(''ABC 123'', 1)\<close> and \<open>(''ABC123'', 1)\<close>, in the order
  the engine gives to equal scores, and the negative leaderboard \<open>[(''XYZ999'', -1)]\<close>.
  When the first input is \<open>'' abc123 ''\<close>, with surrounding whitespace only, the positive
  leaderboard is \<open>[(''ABC123'', 2)]\<close>.
\<close>

theorem scenario_leaderboard:
  assumes "distinct [uuid e1, uuid e2, uuid e3]"
  shows "(\<exists>b. queryLeaderboard
                (addVotes [(e1, ''abc 123'', 1), (e2, ''ABC123'', 1), (e3, ''xyz999'', - 1)]
                   empty_schema)
              = Inr \<lparr>best = b, worst = [(''XYZ999'', - 1)]\<rparr>
            \<and> set b = {(''ABC 123'', 1), (''ABC123'', 1)} \<and> length b = 2)
         \<and> queryLeaderboard
              (addVotes [(e1, '' abc123 '', 1), (e2, ''ABC123'', 1), (e3, ''xyz999'', - 1)]
                 empty_schema)
            = Inr \<lparr>best = [(''ABC123'', 2)], worst = [(''XYZ999'', - 1)]\<rparr>"
  using assms
  by (simp add: empty_schema_def scenario_norms addVote_Database ensured_def bumped_def
      queryLeaderboard_def select_best_def select_worst_def)

theorem scenario_leaderboard_witness:
  "queryLeaderboard
     (addVotes
        [(\<lparr>now_ensure = ''t1'', now_update = ''t2'', now_insert = ''t3'', uuid = ''u1''\<rparr>, '' abc123 '', 1),
         (\<lparr>now_ensure = ''t4'', now_update = ''t5'', now_insert = ''t6'', uuid = ''u2''\<rparr>, ''ABC123'', 1),
         (\<lparr>now_ensure = ''t7'', now_update = ''t8'', now_insert = ''t9'', uuid = ''u3''\<rparr>, ''xyz999'', - 1)]
        empty_schema)
   = Inr \<lparr>best = [(''ABC123'', 2)], worst = [(''XYZ999'', - 1)]\<rparr>"
proof -
  have h: "distinct [uuid \<lparr>now_ensure = ''t1'', now_update = ''t2'', now_insert = ''t3'', uuid = ''u1''\<rparr>,
                     uuid \<lparr>now_ensure = ''t4'', now_update = ''t5'', now_insert = ''t6'', uuid = ''u2''\<rparr>,
                     uuid \<lparr>now_ensure = ''t7'', now_update = ''t8'', now_insert = ''t9'', uuid = ''u3''\<rparr>]"
    by simp
  from scenario_leaderboard [OF h] show ?thesis by (rule conjunct2)
qed

text \<open>
  The scenario as it was stated: the plate \<open>''ABC123''\<close> has one vote, not two, and the
  leaderboards are not the ones claimed.
\<close>

theorem scenario_leaderboard_counterexample:
  "score_of
     (addVotes
        [(\<lparr>now_ensure = ''t1'', now_update = ''t2'', now_insert = ''t3'', uuid = ''u1''\<rparr>, ''abc 123'', 1),
         (\<lparr>now_ensure = ''t4'', now_update = ''t5'', now_insert = ''t6'', uuid = ''u2''\<rparr>, ''ABC123'', 1),
         (\<lparr>now_ensure = ''t7'', now_update = ''t8'', now_insert = ''t9'', uuid = ''u3''\<rparr>, ''xyz999'', - 1)]
        empty_schema) ''ABC123'' = Some 1
   \<and> score_of
     (addVotes
        [(\<lparr>now_ensure = ''t1'', now_update = ''t2'', now_insert = ''t3'', uuid = ''u1''\<rparr>, ''abc 123'', 1),
         (\<lparr>now_ensure = ''t4'', now_update = ''t5'', now_insert = ''t6'', uuid = ''u2''\<rparr>, ''ABC123'', 1),
         (\<lparr>now_ensure = ''t7'', now_update = ''t8'', now_insert = ''t9'', uuid = ''u3''\<rparr>, ''xyz999'', - 1)]
        empty_schema) ''ABC 123'' = Some 1
   \<and> queryLeaderboard
     (addVotes
        [(\<lparr>now_ensure = ''t1'', now_update = ''t2'', now_insert = ''t3'', uuid = ''u1''\<rparr>, ''abc 123'', 1),
         (\<lparr>now_ensure = ''t4'', now_update = ''t5'', now_insert = ''t6'', uuid = ''u2''\<rparr>, ''ABC123'', 1),
         (\<lparr>now_ensure = ''t7'', now_update = ''t8'', now_insert = ''t9'', uuid = ''u3''\<rparr>, ''xyz999'', - 1)]
        empty_schema)
     \<noteq> Inr \<lparr>best = [(''ABC123'', 2)], worst = [(''XYZ999'', - 1)]\<rparr>"
  by code_simp

section \<open>Plates and votes\<close>

text \<open>
  Claim C4. Take any session from first boot: votes through the two vote handlers,
  resets (confirmed or not), snapshots, restarts from the blob store, signing in and
  out, with every vote drawing an identifier the votes table does not hold. In the
  state it reaches, a \<^verbatim>\<open>plates\<close> row with plate text \<open>p\<close> exists if and only if a vote
  for \<open>p\<close> was recorded since the last confirmed reset (or since first boot when there
  was none), and if and only if the \<^verbatim>\<open>votes\<close> table holds a row for \<open>p\<close>.
\<close>

theorem plate_row_iff_vote_recorded:
  assumes "fresh_ids evs first_boot"
  shows "(p \<in> set (plate_texts (db (session evs first_boot))) \<longleftrightarrow> p \<in> set (recorded evs []))
       \<and> (p \<in> set (plate_texts (db (session evs first_boot)))
            \<longleftrightarrow> p \<in> set (voted_texts (db (session evs first_boot))))"
  using session_inv_session[OF session_inv_first_boot assms]
  by (auto simp add: session_inv_def voted_texts_def)

theorem plate_row_iff_vote_recorded_witness:
  "fresh_ids
     [VotePlus \<lparr>now_ensure = ''t1'', now_update = ''t2'', now_insert = ''t3'', uuid = ''u1''\<rparr> ''abc123'', Hidden, Restart, VoteMinus \<lparr>now_ensure = ''t4'', now_update = ''t5'', now_insert = ''t6'', uuid = ''u2''\<rparr> '' xyz999'', Reset False,
      VotePlus \<lparr>now_ensure = ''t7'', now_update = ''t8'', now_insert = ''t9'', uuid = ''u3''\<rparr> ''  '']
     first_boot
   \<and> ''ABC123'' \<in> set (recorded
     [VotePlus \<lparr>now_ensure = ''t1'', now_update = ''t2'', now_insert = ''t3'', uuid = ''u1''\<rparr> ''abc123'', Hidden, Restart, VoteMinus \<lparr>now_ensure = ''t4'', now_update = ''t5'', now_insert = ''t6'', uuid = ''u2''\<rparr> '' xyz999'', Reset False,
      VotePlus \<lparr>now_ensure = ''t7'', now_update = ''t8'', now_insert = ''t9'', uuid = ''u3''\<rparr> ''  ''] [])
   \<and> ''ABC123'' \<in> set (plate_texts (db (session
     [VotePlus \<lparr>now_ensure = ''t1'', now_update = ''t2'', now_insert = ''t3'', uuid = ''u1''\<rparr> ''abc123'', Hidden, Restart, VoteMinus \<lparr>now_ensure = ''t4'', now_update = ''t5'', now_insert = ''t6'', uuid = ''u2''\<rparr> '' xyz999'', Reset False,
      VotePlus \<lparr>now_ensure = ''t7'', now_update = ''t8'', now_insert = ''t9'', uuid = ''u3''\<rparr> ''  '']
     first_boot)))
   \<and> ''ABC123'' \<in> set (voted_texts (db (session
     [VotePlus \<lparr>now_ensure = ''t1'', now_update = ''t2'', now_insert = ''t3'', uuid = ''u1''\<rparr> ''abc123'', Hidden, Restart, VoteMinus \<lparr>now_ensure = ''t4'', now_update = ''t5'', now_insert = ''t6'', uuid = ''u2''\<rparr> '' xyz999'', Reset False,
      VotePlus \<lparr>now_ensure = ''t7'', now_update = ''t8'', now_insert = ''t9'', uuid = ''u3''\<rparr> ''  '']
     first_boot)))"
proof -
  let ?evs = "[VotePlus \<lparr>now_ensure = ''t1'', now_update = ''t2'', now_insert = ''t3'', uuid = ''u1''\<rparr> ''abc123'', Hidden, Restart, VoteMinus \<lparr>now_ensure = ''t4'', now_update = ''t5'', now_insert = ''t6'', uuid = ''u2''\<rparr> '' xyz999'', Reset False,
      VotePlus \<lparr>now_ensure = ''t7'', now_update = ''t8'', now_insert = ''t9'', uuid = ''u3''\<rparr> ''  '']"
  have h: "fresh_ids ?evs first_boot" by code_simp
  have r: "''ABC123'' \<in> set (recorded ?evs [])" by code_simp
  from plate_row_iff_vote_recorded [OF h, of "''ABC123''"] h r show ?thesis by blast
qed

section \<open>Snapshot and restore\<close>

text \<open>
  Claim C5. For every application state, \<^verbatim>\<open>persistDb\<close> followed by \<^verbatim>\<open>initDb\<close> on the
  blob store it wrote takes the restore branch, raises nothing and yields the store
  that was exported: the \<^verbatim>\<open>plates\<close> and \<^verbatim>\<open>votes\<close> tables are row for row the same. The
  byte format is the engine's; an exported image stands for the file it encodes.
\<close>

theorem persist_open_roundtrip:
  "initDb (idb (persistDb s)) = (None, persistDb s)
   \<and> db (snd (initDb (idb (persistDb s)))) = db s
   \<and> plates_of (db (snd (initDb (idb (persistDb s))))) = plates_of (db s)
   \<and> votes_of (db (snd (initDb (idb (persistDb s))))) = votes_of (db s)"
proof -
  have "idb (persistDb s) DB_KEY = Some (Uint8Array (db s))"
    by (simp add: persistDb_def)
  then have "initDb (idb (persistDb s)) = (None, \<lparr>db = db s, idb = idb (persistDb s)\<rparr>)"
    by (rule initDb_Uint8Array)
  moreover have "\<lparr>db = db s, idb = idb (persistDb s)\<rparr> = persistDb s"
    by (simp add: persistDb_def)
  ultimately show ?thesis by (simp add: persistDb_def)
qed

section \<open>Reset\<close>

text \<open>
  Claim C6. On every readable database file, tables present or not, a confirmed reset
  raises nothing and leaves the schema of first boot with no rows; it then writes the
  snapshot. The leaderboard query on the store after the reset returns two empty
  sequences, and \<^verbatim>\<open>initDb\<close> on the blob store after the reset opens a store with zero
  rows in \<^verbatim>\<open>plates\<close> and in \<^verbatim>\<open>votes\<close>.
\<close>

theorem reset_empties:
  "fst (resetDbBtn_onclick True \<lparr>db = Database d, idb = store\<rparr>) = None
   \<and> db (snd (resetDbBtn_onclick True \<lparr>db = Database d, idb = store\<rparr>)) = db first_boot
   \<and> idb (snd (resetDbBtn_onclick True \<lparr>db = Database d, idb = store\<rparr>)) DB_KEY
       = Some (Uint8Array (db (snd (resetDbBtn_onclick True \<lparr>db = Database d, idb = store\<rparr>))))
   \<and> queryLeaderboard (db (snd (resetDbBtn_onclick True \<lparr>db = Database d, idb = store\<rparr>)))
       = Inr \<lparr>best = [], worst = []\<rparr>
   \<and> plates_of (db (snd (initDb (idb (snd (resetDbBtn_onclick True
          \<lparr>db = Database d, idb = store\<rparr>)))))) = Inr []
   \<and> votes_of (db (snd (initDb (idb (snd (resetDbBtn_onclick True
          \<lparr>db = Database d, idb = store\<rparr>)))))) = Inr []"
proof -
  have b: "db first_boot = empty_schema"
    by (simp add: first_boot_def initDb_def initDb_fresh_eq)
  have t: "plates_of empty_schema = Inr []" "votes_of empty_schema = Inr []"
    by (simp_all add: empty_schema_def)
  show ?thesis
    by (simp add: reset_Database b t queryLeaderboard_empty initDb_Uint8Array)
qed

section \<open>Boot\<close>

text \<open>
  Claim C9, as amended. When the value stored under the database key is absent or is
  not byte-shaped (neither a \<^verbatim>\<open>Uint8Array\<close> nor a value with a \<^verbatim>\<open>buffer\<close> property),
  \<^verbatim>\<open>initDb\<close> raises nothing: it creates the empty schema in a new database and writes
  its snapshot. A byte-shaped value is handed to the engine as it is: the handle is
  opened over those bytes, whatever they are, and nothing is created or written.
\<close>

theorem initDb_fallback:
  "((\<forall>f. store DB_KEY \<noteq> Some (Uint8Array f) \<and> store DB_KEY \<noteq> Some (HasBuffer f)) \<longrightarrow>
      initDb store = (None, \<lparr>db = empty_schema, idb = store(DB_KEY \<mapsto> Uint8Array empty_schema)\<rparr>))
   \<and> (store DB_KEY = Some (Uint8Array f) \<or> store DB_KEY = Some (HasBuffer f) \<longrightarrow>
      initDb store = (None, \<lparr>db = f, idb = store\<rparr>))"
  by (auto simp add: initDb_def initDb_fresh_eq split: option.splits idb_value.splits)

theorem initDb_fallback_witness:
  "initDb [DB_KEY \<mapsto> Str ''stale'', USER_KEY \<mapsto> Str ''Ann'']
     = (None, \<lparr>db = empty_schema,
               idb = [DB_KEY \<mapsto> Str ''stale'', USER_KEY \<mapsto> Str ''Ann'']
                     (DB_KEY \<mapsto> Uint8Array empty_schema)\<rparr>)
   \<and> initDb [DB_KEY \<mapsto> Uint8Array empty_schema]
     = (None, \<lparr>db = empty_schema, idb = [DB_KEY \<mapsto> Uint8Array empty_schema]\<rparr>)"
proof -
  have h1: "\<forall>f. [DB_KEY \<mapsto> Str ''stale'', USER_KEY \<mapsto> Str ''Ann''] DB_KEY \<noteq> Some (Uint8Array f)
              \<and> [DB_KEY \<mapsto> Str ''stale'', USER_KEY \<mapsto> Str ''Ann''] DB_KEY \<noteq> Some (HasBuffer f)"
    by (simp add: keys_differ)
  have h2: "[DB_KEY \<mapsto> Uint8Array empty_schema] DB_KEY = Some (Uint8Array empty_schema)
            \<or> [DB_KEY \<mapsto> Uint8Array empty_schema] DB_KEY = Some (HasBuffer empty_schema)"
    by simp
  from h1 initDb_fallback [of "[DB_KEY \<mapsto> Str ''stale'', USER_KEY \<mapsto> Str ''Ann'']"]
  have 1: "initDb [DB_KEY \<mapsto> Str ''stale'', USER_KEY \<mapsto> Str ''Ann'']
     = (None, \<lparr>db = empty_schema,
               idb = [DB_KEY \<mapsto> Str ''stale'', USER_KEY \<mapsto> Str ''Ann'']
                     (DB_KEY \<mapsto> Uint8Array empty_schema)\<rparr>)"
    by blast
  from h2 initDb_fallback [of "[DB_KEY \<mapsto> Uint8Array empty_schema]" empty_schema]
  have 2: "initDb [DB_KEY \<mapsto> Uint8Array empty_schema]
     = (None, \<lparr>db = empty_schema, idb = [DB_KEY \<mapsto> Uint8Array empty_schema]\<rparr>)"
    by blast
  from 1 2 show ?thesis by (rule conjI)
qed

text \<open>
  The claim as it was stated, that an image the engine cannot parse makes the boot fall
  back to a fresh store, fails: bytes that are no database file are opened as they are,
  the store is not the empty schema, and the first statement on it raises.
\<close>

theorem initDb_fallback_counterexample:
  "initDb [DB_KEY \<mapsto> Uint8Array (NotADatabase [1, 2, 3])]
     = (None, \<lparr>db = NotADatabase [1, 2, 3], idb = [DB_KEY \<mapsto> Uint8Array (NotADatabase [1, 2, 3])]\<rparr>)
   \<and> NotADatabase [1, 2, 3] \<noteq> empty_schema
   \<and> queryLeaderboard (NotADatabase [1, 2, 3]) = Inl NotADb
   \<and> fst (addVote \<lparr>now_ensure = ''t1'', now_update = ''t2'', now_insert = ''t3'', uuid = ''u1''\<rparr>
        ''ABC123'' 1 (NotADatabase [1, 2, 3])) = Some NotADb"
proof -
  have "normalize_plate ''ABC123'' = ''ABC123''" by code_simp
  then have "toUpperCase (trim ''ABC123'') = ''ABC123''" by (simp add: normalize_plate_def)
  then show ?thesis
  by (simp add: initDb_def empty_schema_def queryLeaderboard_def select_best_def plates_of_def
      addVote_def ensurePlateRow_def select_plate_def)
qed

section \<open>Reset and the profile\<close>

text \<open>
  Claim C10. Whatever the answer to the confirmation and whether or not the reset
  raises, \<^verbatim>\<open>resetDbBtn.onclick\<close> changes the blob store at the database key at most: the
  value under the profile key is what it was, and \<^verbatim>\<open>getUser\<close> returns what it returned
  before.
\<close>

theorem reset_keeps_profile:
  "idb (snd (resetDbBtn_onclick confirmed s)) USER_KEY = idb s USER_KEY
   \<and> getUser (snd (resetDbBtn_onclick confirmed s)) = getUser s
   \<and> (\<exists>v. idb (snd (resetDbBtn_onclick confirmed s)) = (idb s)(DB_KEY := v))"
proof -
  let ?s' = "snd (resetDbBtn_onclick confirmed s)"
  have "idb ?s' = idb s \<or> idb ?s' = (idb s)(DB_KEY \<mapsto> Uint8Array (db ?s'))"
    by (auto simp add: resetDbBtn_onclick_def persistDb_def split: prod.splits option.splits)
  then have f: "\<exists>v. idb ?s' = (idb s)(DB_KEY := v)"
  proof
    assume "idb ?s' = idb s"
    then have "idb ?s' = (idb s)(DB_KEY := idb s DB_KEY)" by simp
    then show ?thesis ..
  next
    assume "idb ?s' = (idb s)(DB_KEY \<mapsto> Uint8Array (db ?s'))"
    then show ?thesis ..
  qed
  then have u: "idb ?s' USER_KEY = idb s USER_KEY"
    using keys_differ by auto
  then have "getUser ?s' = getUser s" by (simp add: getUser_def)
  with f u show ?thesis by simp
qed

end
